theory Spec2Isabelle
  imports Complex_Main "HOL-Library.Word"
begin

section \<open>DualExtrude.cpp: strings, tokens and the code table\<close>

text \<open>
  The program reads a G-code file twice. \<open>CheckFile\<close> finds out which toolhead the file
  drives, \<open>ConvFile\<close> rewrites the file line by line for both toolheads. Text is held in
  C strings: a \<open>char\<close> buffer read up to its first NUL byte.
\<close>

definition cstr :: "string \<Rightarrow> string" where
  \<comment> \<open>what \<open>strcpy\<close>, \<open>strtok\<close> and \<open>%s\<close> see of a buffer: the bytes before the first NUL\<close>
  "cstr s = takeWhile (\<lambda>c. c \<noteq> CHR 0x00) s"

definition nl :: string where
  \<comment> \<open>the escape \<open>\012\<close>\<close>
  "nl = [CHR 0x0A]"

definition Tokens :: string where
  \<comment> \<open>\<open>char Tokens[] = " \012"\<close>\<close>
  "Tokens = CHR 0x20 # nl"

definition delim :: "char \<Rightarrow> bool" where
  "delim c = (c \<in> set Tokens)"

text \<open>
  \<open>strtok s\<close> is the list of tokens that \<open>strtok(s, Tokens)\<close> followed by
  \<open>strtok(NULL, Tokens)\<close> until \<open>NULL\<close> returns: each call skips delimiters, then takes
  the bytes up to the next delimiter.
\<close>

function strtok :: "string \<Rightarrow> string list" where
  "strtok s =
     (case dropWhile delim s of
        [] \<Rightarrow> []
      | c # cs \<Rightarrow> (c # takeWhile (\<lambda>x. \<not> delim x) cs) # strtok (dropWhile (\<lambda>x. \<not> delim x) cs))"
  by pat_completeness auto
termination
proof (relation "measure length")
  show "wf (measure length)" by simp
next
  fix s :: string and c cs
  assume a: "dropWhile delim s = c # cs"
  have "length (dropWhile (\<lambda>x. \<not> delim x) cs) \<le> length cs"
    by (rule length_dropWhile_le)
  also have "length cs < length (dropWhile delim s)"
    using a by simp
  also have "\<dots> \<le> length s"
    by (rule length_dropWhile_le)
  finally show "(dropWhile (\<lambda>x. \<not> delim x) cs, s) \<in> measure length"
    by simp
qed

declare strtok.simps [simp del]

definition Token0 :: "string \<Rightarrow> char" where
  \<comment> \<open>\<open>Token[0]\<close>: the terminating NUL when the string is empty\<close>
  "Token0 t = (case t of [] \<Rightarrow> CHR 0x00 | c # _ \<Rightarrow> c)"

definition NUMCODES :: nat where "NUMCODES = 7"
definition NOTOKENS :: int where "NOTOKENS = - 1"
definition M101 :: int where "M101 = 0"
definition M102 :: int where "M102 = 1"
definition M103 :: int where "M103 = 2"
definition M104 :: int where "M104 = 3"
definition M108 :: int where "M108 = 4"
definition M6 :: int where "M6 = 5"
definition G1 :: int where "G1 = 6"

definition CODES :: "string list" where
  "CODES = [''M101'', ''M102'', ''M103'', ''M104'', ''M108'', ''M6'', ''G1'']"

function CheckCode_loop :: "string \<Rightarrow> nat \<Rightarrow> int" where
  "CheckCode_loop buf cnt =
     (if cnt < NUMCODES
      then (if buf = CODES ! cnt then int cnt else CheckCode_loop buf (Suc cnt))
      else NOTOKENS)"
  by pat_completeness auto
termination
  by (relation "measure (\<lambda>(buf, cnt). NUMCODES - cnt)") auto

declare CheckCode_loop.simps [simp del]

definition CheckCode :: "string option \<Rightarrow> int" where
  \<comment> \<open>\<open>None\<close> is the \<open>NULL\<close> that \<open>strtok\<close> returns for a line without a token\<close>
  "CheckCode buf = (case buf of None \<Rightarrow> - 1 | Some b \<Rightarrow> CheckCode_loop b 0)"

section \<open>Integers in text: \<open>sscanf\<close> with \<open>%d\<close>, \<open>printf\<close> with \<open>%d\<close>\<close>

definition isspace :: "char \<Rightarrow> bool" where
  "isspace c = (c \<in> set [CHR 0x20, CHR 0x09, CHR 0x0A, CHR 0x0B, CHR 0x0C, CHR 0x0D])"

definition isdigit :: "char \<Rightarrow> bool" where
  "isdigit c = (c \<in> set ''0123456789'')"

definition digit_val :: "char \<Rightarrow> nat" where
  "digit_val c = of_char c - 48"

definition decimal :: "string \<Rightarrow> nat" where
  "decimal ds = foldl (\<lambda>n c. 10 * n + digit_val c) 0 ds"

text \<open>
  The directive \<open>%d\<close> skips white space, reads an optional sign and then decimal digits;
  without a digit nothing is converted and the target keeps its value (\<open>None\<close>). The
  target is a C \<open>int\<close>, modelled as a 32-bit word read in two's complement; a number
  outside its range wraps around.
\<close>

definition scan_d :: "string \<Rightarrow> 32 word option" where
  "scan_d s =
     (let s1 = dropWhile isspace s;
          s2 = (if take 1 s1 = ''-'' \<or> take 1 s1 = ''+'' then drop 1 s1 else s1);
          ds = takeWhile isdigit s2
      in if ds = [] then None
         else Some (if take 1 s1 = ''-'' then - word_of_nat (decimal ds)
                    else word_of_nat (decimal ds)))"

definition sscanf_Sd :: "string \<Rightarrow> 32 word \<Rightarrow> 32 word" where
  \<comment> \<open>\<open>sscanf(Token,"S%d",&Temp)\<close>: the new value of \<open>Temp\<close>\<close>
  "sscanf_Sd Token Temp =
     (case Token of
        [] \<Rightarrow> Temp
      | c # cs \<Rightarrow> if c = CHR ''S'' then (case scan_d cs of None \<Rightarrow> Temp | Some v \<Rightarrow> v)
                  else Temp)"

function show_nat :: "nat \<Rightarrow> string" where
  "show_nat n =
     (if n < 10 then [''0123456789'' ! n]
      else show_nat (n div 10) @ [''0123456789'' ! (n mod 10)])"
  by pat_completeness auto
termination
  by (relation "measure id") auto

declare show_nat.simps [simp del]

definition show_int :: "int \<Rightarrow> string" where
  \<comment> \<open>\<open>%d\<close>\<close>
  "show_int i = (if i < 0 then CHR ''-'' # show_nat (nat (- i)) else show_nat (nat i))"

section \<open>Reading the file: \<open>fgets\<close>\<close>

text \<open>
  \<open>fgets n s\<close> reads from the stream \<open>s\<close> into a buffer of \<open>n\<close> bytes: at most
  \<open>n - 1\<close> bytes, stopping after a linefeed. It gives the bytes stored and the rest of
  the stream. The C function returns \<open>NULL\<close> when the stream is at its end.
\<close>

fun fgets :: "nat \<Rightarrow> string \<Rightarrow> string \<times> string" where
  "fgets n [] = ([], [])"
| "fgets n (c # cs) =
     (if n \<le> 1 then ([], c # cs)
      else if c = CHR 0x0A then ([c], cs)
      else (case fgets (n - 1) cs of (l, r) \<Rightarrow> (c # l, r)))"

text \<open>The records that \<open>while (NULL != fgets(buf,n,in))\<close> iterates over.\<close>

function fgets_all :: "nat \<Rightarrow> string \<Rightarrow> string list" where
  "fgets_all n s =
     (if s = [] \<or> n \<le> 1 then []
      else fst (fgets n s) # fgets_all n (snd (fgets n s)))"
  by pat_completeness auto
termination
proof (relation "measure (\<lambda>(n, s). length s)")
  show "wf (measure (\<lambda>(n :: nat, s :: string). length s))"
    by simp
next
  fix n :: nat and s :: string
  assume a: "\<not> (s = [] \<or> n \<le> 1)"
  have le: "length (snd (fgets k t)) \<le> length t" for k t
  proof (induction t arbitrary: k)
    case Nil
    show ?case by simp
  next
    case (Cons c cs)
    have "length (snd (fgets (k - 1) cs)) \<le> length cs"
      by (rule Cons.IH)
    then show ?case
      by (auto split: prod.splits)
  qed
  obtain c cs where s: "s = c # cs"
    using a by (cases s) auto
  have "length (snd (fgets (n - 1) cs)) \<le> length cs"
    by (rule le)
  then have "length (snd (fgets n s)) < length s"
    using a s by (auto split: prod.splits)
  then show "((n, snd (fgets n s)), (n, s)) \<in> measure (\<lambda>(n, s). length s)"
    by simp
qed

declare fgets_all.simps [simp del]

section \<open>Floating point\<close>

text \<open>
  \<open>FirstE\<close>, \<open>Ratio\<close>, \<open>CurrentE\<close>, \<open>NewE\<close> and the diameters are C \<open>double\<close>s.
  The arithmetic on them, \<open>sscanf\<close> with \<open>%lf\<close> and \<open>printf\<close> with \<open>%.5f\<close> belong to
  the platform, not to this program, so the model takes them as a parameter: a value of
  type \<open>'r arith\<close>, with \<open>'r\<close> the type of doubles. No law is assumed of these
  operations: what is proved for every \<open>'r arith\<close> holds for IEEE arithmetic too.
\<close>

record 'r arith =
  fp_lit :: "rat \<Rightarrow> 'r"             \<comment> \<open>the double a decimal literal of the source denotes\<close>
  fp_less :: "'r \<Rightarrow> 'r \<Rightarrow> bool"     \<comment> \<open>\<open>a < b\<close>\<close>
  fp_add :: "'r \<Rightarrow> 'r \<Rightarrow> 'r"
  fp_sub :: "'r \<Rightarrow> 'r \<Rightarrow> 'r"
  fp_mul :: "'r \<Rightarrow> 'r \<Rightarrow> 'r"
  fp_div :: "'r \<Rightarrow> 'r \<Rightarrow> 'r"
  fp_floor :: "'r \<Rightarrow> 'r"             \<comment> \<open>\<open>floor\<close> of \<open>math.h\<close>\<close>
  fp_scan :: "string \<Rightarrow> 'r option"   \<comment> \<open>\<open>sscanf(s,"%lf",&x)\<close>: the value stored, if any\<close>
  fp_print5 :: "'r \<Rightarrow> string"        \<comment> \<open>\<open>%.5f\<close>\<close>

section \<open>Global state and errors\<close>

record 'r globals =
  LeftUsed :: bool
  RightUsed :: bool
  FirstE :: 'r
  Ratio :: 'r

datatype fault = SpeedTooLong | NoSpeed | EParamTooLong

datatype error =
    ValidationError            \<comment> \<open>"Filament diameter: ... too big/small!"\<close>
  | OpenError                  \<comment> \<open>"Can't open input file", "Can't create output file"\<close>
  | ConflictError              \<comment> \<open>\<open>ERROR_BOTH\<close>\<close>
  | UsageError                 \<comment> \<open>"Couldn't find a used extruder!"\<close>
  | FormatError fault nat      \<comment> \<open>the three errors of \<open>ConvFile\<close> that print "in line cnt"\<close>
  | BufferOverrun nat          \<comment> \<open>\<open>sprintf\<close> past the end of \<open>buf[1002]\<close>: undefined in C\<close>

section \<open>\<open>ConvFile\<close>: the transform pass\<close>

definition NotUsed :: "'r globals \<Rightarrow> string" where
  \<comment> \<open>the local \<open>NotUsed\<close>, set before the loop from \<open>RightUsed\<close>, which the loop never writes\<close>
  "NotUsed g = (if RightUsed g then ''T1'' else ''T0'')"

definition sprintf_cat :: "string \<Rightarrow> string \<Rightarrow> string option" where
  \<comment> \<open>\<open>sprintf(buf+strlen(buf), ...)\<close> into \<open>char buf[1002]\<close>; \<open>None\<close> when it does not fit\<close>
  "sprintf_cat buf piece =
     (if length buf + length piece \<le> 1001 then Some (buf @ piece) else None)"

definition onoff_lines :: "int \<Rightarrow> string" where
  \<comment> \<open>\<open>"%s T1\012%s T0\012"\<close>\<close>
  "onoff_lines Code =
     CODES ! nat Code @ '' T1'' @ nl @ CODES ! nat Code @ '' T0'' @ nl"

fun m104_args :: "string \<Rightarrow> string list \<Rightarrow> 32 word \<Rightarrow> 32 word" where
  "m104_args nu [] Temp = Temp"
| "m104_args nu (Token # rest) Temp =
     (if nu = Token then Temp
      else m104_args nu rest
             (if Token0 Token = CHR ''S'' then sscanf_Sd Token Temp else Temp))"

definition temp_lines :: "int \<Rightarrow> 32 word \<Rightarrow> string" where
  \<comment> \<open>\<open>"%s S%d T1\012%s S%d T0\012"\<close>\<close>
  "temp_lines Code Temp =
     CODES ! nat Code @ '' S'' @ show_int (sint Temp) @ '' T1'' @ nl
     @ CODES ! nat Code @ '' S'' @ show_int (sint Temp) @ '' T0'' @ nl"

text \<open>
  The parameter loop of \<open>M108\<close>. \<open>None\<close> is the return from inside the loop ("Speed
  command too long"), \<open>Some Speed\<close> the buffer \<open>Speed\<close> when the loop is left.
\<close>

fun m108_args :: "string \<Rightarrow> string list \<Rightarrow> string \<Rightarrow> string option" where
  "m108_args nu [] Speed = Some Speed"
| "m108_args nu (Token # rest) Speed =
     (if nu = Token then Some Speed
      else if Token0 Token = CHR ''R''
      then (if length Token > 15 then None else m108_args nu rest Token)
      else m108_args nu rest Speed)"

definition speed_lines :: "int \<Rightarrow> string \<Rightarrow> string" where
  \<comment> \<open>\<open>"%s %s T1\012%s %s T0\012"\<close>\<close>
  "speed_lines Code Speed =
     CODES ! nat Code @ '' '' @ Speed @ '' T1'' @ nl
     @ CODES ! nat Code @ '' '' @ Speed @ '' T0'' @ nl"

definition is_E :: "string \<Rightarrow> bool" where
  "is_E Token =
     (Token0 Token = CHR ''E'' \<or> Token0 Token = CHR ''A'' \<or> Token0 Token = CHR ''B'')"

text \<open>
  An extrusion parameter that fits (lines 298 to 337): the text appended to \<open>buf\<close> and
  the globals afterwards.
\<close>

definition e_param :: "'r arith \<Rightarrow> 'r globals \<Rightarrow> string \<Rightarrow> string \<times> 'r globals" where
  "e_param ar g Token =
     (let CurrentE = (case fp_scan ar (tl Token) of
                        None \<Rightarrow> fp_lit ar 0
                      | Some v \<Rightarrow> v)
      in if fp_less ar (fp_lit ar 0) (FirstE g)
         then (let NewE = fp_add ar (fp_mul ar (fp_sub ar CurrentE (FirstE g)) (Ratio g))
                                  (FirstE g);
                   NewE = fp_floor ar (fp_add ar (fp_mul ar NewE (fp_lit ar 100000))
                                                (fp_lit ar (1 / 2)));
                   NewE = fp_div ar NewE (fp_lit ar 100000)
               in if RightUsed g
                  then ('' B'' @ fp_print5 ar NewE @ '' A'' @ tl Token, g)
                  else ('' A'' @ fp_print5 ar NewE @ '' B'' @ tl Token, g))
         else ('' A'' @ tl Token @ '' B'' @ tl Token, g\<lparr>FirstE := CurrentE\<rparr>))"

definition g1_token ::
  "'r arith \<Rightarrow> nat \<Rightarrow> 'r globals \<Rightarrow> string \<Rightarrow> error + string \<times> 'r globals" where
  "g1_token ar cnt g Token =
     (if is_E Token
      then (if length Token > 15 then Inl (FormatError EParamTooLong cnt)
            else Inr (e_param ar g Token))
      else Inr ('' '' @ Token, g))"

fun g1_args ::
  "'r arith \<Rightarrow> nat \<Rightarrow> string list \<Rightarrow> string \<Rightarrow> 'r globals \<Rightarrow> error + string \<times> 'r globals"
where
  "g1_args ar cnt [] buf g = Inr (buf, g)"
| "g1_args ar cnt (Token # rest) buf g =
     (case g1_token ar cnt g Token of
        Inl e \<Rightarrow> Inl e
      | Inr (piece, g') \<Rightarrow>
          (case sprintf_cat buf piece of
             None \<Rightarrow> Inl (BufferOverrun cnt)
           | Some buf' \<Rightarrow> g1_args ar cnt rest buf' g'))"

text \<open>
  The body of the loop of \<open>ConvFile\<close> for the record \<open>buf\<close>, the \<open>cnt\<close>-th that
  \<open>fgets\<close> delivered: the text that \<open>fprintf(out,"%s",buf)\<close> writes and the globals
  afterwards, or the error the function returns with.
\<close>

definition conv_line ::
  "'r arith \<Rightarrow> 'r globals \<Rightarrow> nat \<Rightarrow> string \<Rightarrow> error + string \<times> 'r globals" where
  "conv_line ar g cnt buf =
     (let toks = strtok (cstr buf);
          Code = CheckCode (case toks of [] \<Rightarrow> None | t # _ \<Rightarrow> Some t);
          args = tl toks
      in if Code = M101 \<or> Code = M102 \<or> Code = M103 \<or> Code = M6 then
           (case args of
              [] \<Rightarrow> Inr (onoff_lines Code, g)
            | Token # _ \<Rightarrow>
                if NotUsed g = Token then Inr (cstr buf, g)
                else Inr (onoff_lines Code, g))
         else if Code = M104 then
           Inr (temp_lines Code (m104_args (NotUsed g) args 0), g)
         else if Code = M108 then
           (case m108_args (NotUsed g) args [] of
              None \<Rightarrow> Inl (FormatError SpeedTooLong cnt)
            | Some Speed \<Rightarrow>
                if Speed = [] then Inl (FormatError NoSpeed cnt)
                else Inr (speed_lines Code Speed, g))
         else if Code = G1 then
           (case g1_args ar cnt args (CODES ! nat G1) g of
              Inl e \<Rightarrow> Inl e
            | Inr (b, g') \<Rightarrow>
                (case sprintf_cat b nl of
                   None \<Rightarrow> Inl (BufferOverrun cnt)
                 | Some b' \<Rightarrow> Inr (b', g')))
         else Inr (cstr buf, g))"

text \<open>
  The loop over the records: \<open>cnt\<close> records are done, \<open>out\<close> is written. It gives the
  error, if any, what is in the output file at the end, and the globals.
\<close>

fun ConvFile_loop ::
  "'r arith \<Rightarrow> nat \<Rightarrow> string list \<Rightarrow> string \<Rightarrow> 'r globals
     \<Rightarrow> error option \<times> string \<times> 'r globals" where
  "ConvFile_loop ar cnt [] out g = (None, out, g)"
| "ConvFile_loop ar cnt (buf # bufs) out g =
     (case conv_line ar g (Suc cnt) buf of
        Inl e \<Rightarrow> (Some e, out, g)
      | Inr (text, g') \<Rightarrow> ConvFile_loop ar (Suc cnt) bufs (out @ text) g')"

text \<open>
  \<open>infile\<close> is the content of the input file, \<open>None\<close> when it cannot be opened;
  \<open>outfile_ok\<close> says whether the output file can be created. The second component of
  the result is the output file: \<open>None\<close> when it was never created.
\<close>

definition ConvFile ::
  "'r arith \<Rightarrow> 'r globals \<Rightarrow> string option \<Rightarrow> bool
     \<Rightarrow> error option \<times> string option \<times> 'r globals" where
  "ConvFile ar g infile outfile_ok =
     (case infile of
        None \<Rightarrow> (Some OpenError, None, g)
      | Some content \<Rightarrow>
          if \<not> outfile_ok then (Some OpenError, None, g)
          else (case ConvFile_loop ar 0 (fgets_all 1000 content) [] g of
                  (e, out, g') \<Rightarrow> (e, Some out, g')))"

section \<open>\<open>CheckFile\<close>: the detection pass\<close>

fun m104_flags ::
  "string list \<Rightarrow> bool \<times> bool \<times> 32 word \<Rightarrow> bool \<times> bool \<times> 32 word" where
  "m104_flags [] st = st"
| "m104_flags (Token # rest) (UsedLeft, UsedRight, Temp) =
     m104_flags rest
       (if Token = ''T1'' then True else UsedLeft,
        if Token = ''T0'' then True else UsedRight,
        if Token0 Token = CHR ''S'' then sscanf_Sd Token Temp else Temp)"

definition check_line :: "'r globals \<Rightarrow> string \<Rightarrow> error + 'r globals" where
  "check_line g buf =
     (let toks = strtok (cstr buf);
          Code = CheckCode (case toks of [] \<Rightarrow> None | t # _ \<Rightarrow> Some t);
          args = tl toks
      in if Code = M101 \<or> Code = M102 then
           (case args of
              [] \<Rightarrow> Inr g
            | Token # _ \<Rightarrow>
                if Token = ''T0'' then
                  (if LeftUsed g then Inl ConflictError else Inr (g\<lparr>RightUsed := True\<rparr>))
                else if Token = ''T1'' then
                  (if RightUsed g then Inl ConflictError else Inr (g\<lparr>LeftUsed := True\<rparr>))
                else Inr g)
         else if Code = M104 then
           (case m104_flags args (False, False, 0) of
              (UsedLeft, UsedRight, Temp) \<Rightarrow>
                if UsedRight \<and> 0 <s Temp then
                  (if LeftUsed g then Inl ConflictError else Inr (g\<lparr>RightUsed := True\<rparr>))
                else if UsedLeft \<and> 0 <s Temp then
                  (if RightUsed g then Inl ConflictError else Inr (g\<lparr>LeftUsed := True\<rparr>))
                else Inr g)
         else Inr g)"

fun CheckFile_loop :: "string list \<Rightarrow> 'r globals \<Rightarrow> error + 'r globals" where
  "CheckFile_loop [] g = Inr g"
| "CheckFile_loop (buf # bufs) g =
     (case check_line g buf of
        Inl e \<Rightarrow> Inl e
      | Inr g' \<Rightarrow> CheckFile_loop bufs g')"

definition CheckFile :: "'r globals \<Rightarrow> string option \<Rightarrow> error + 'r globals" where
  "CheckFile g infile =
     (case infile of
        None \<Rightarrow> Inl OpenError
      | Some content \<Rightarrow>
          (case CheckFile_loop (fgets_all 1024 content) g of
             Inl e \<Rightarrow> Inl e
           | Inr g' \<Rightarrow>
               if \<not> RightUsed g' \<and> \<not> LeftUsed g' then Inl UsageError else Inr g'))"

section \<open>\<open>main\<close>\<close>

text \<open>
  \<open>main\<close> after the command line is read: \<open>dia\<close> is \<open>None\<close> for \<open>argc == 3\<close> and
  holds the two diameters that \<open>sscanf\<close> delivered for \<open>argc == 5\<close>.
\<close>

definition diameter_ok :: "'r arith \<Rightarrow> 'r \<Rightarrow> bool" where
  \<comment> \<open>the negation of \<open>D < 1.5 || D > 2.2\<close>\<close>
  "diameter_ok ar D =
     (\<not> (fp_less ar D (fp_lit ar (3 / 2)) \<or> fp_less ar (fp_lit ar (11 / 5)) D))"

definition main_ratio :: "'r arith \<Rightarrow> ('r \<times> 'r) option \<Rightarrow> error + 'r" where
  "main_ratio ar dia =
     (case dia of
        None \<Rightarrow> Inr (fp_lit ar 1)
      | Some (D1, D2) \<Rightarrow>
          if \<not> diameter_ok ar D1 then Inl ValidationError
          else if \<not> diameter_ok ar D2 then Inl ValidationError
          else Inr (fp_div ar
                      (fp_mul ar (fp_div ar D1 (fp_lit ar 2)) (fp_div ar D1 (fp_lit ar 2)))
                      (fp_mul ar (fp_div ar D2 (fp_lit ar 2)) (fp_div ar D2 (fp_lit ar 2)))))"

definition globals0 :: "'r arith \<Rightarrow> 'r globals" where
  \<comment> \<open>"Clear varibles"\<close>
  "globals0 ar = \<lparr>LeftUsed = False, RightUsed = False, FirstE = fp_lit ar 0,
                  Ratio = fp_lit ar 1\<rparr>"

text \<open>
  The result of \<open>main\<close>: the exit status, the error reported and the output file
  (\<open>None\<close> when it was never created).
\<close>

definition main ::
  "'r arith \<Rightarrow> ('r \<times> 'r) option \<Rightarrow> string option \<Rightarrow> bool
     \<Rightarrow> int \<times> error option \<times> string option" where
  "main ar dia infile outfile_ok =
     (case main_ratio ar dia of
        Inl e \<Rightarrow> (0, Some e, None)
      | Inr r \<Rightarrow>
          (case CheckFile ((globals0 ar)\<lparr>Ratio := r\<rparr>) infile of
             Inl e \<Rightarrow> (- 1, Some e, None)
           | Inr g \<Rightarrow>
               (case ConvFile ar g infile outfile_ok of
                  (None, out, g') \<Rightarrow> (0, None, out)
                | (Some e, out, g') \<Rightarrow> (- 1, Some e, out))))"

section \<open>Exact arithmetic, for running the model\<close>

text \<open>
  An instance of \<open>'r arith\<close> with exact arithmetic in an ordered field. \<open>scan_decimal\<close>
  reads plain decimal notation only (sign, digits, a point, digits) and \<open>print_5f\<close>
  prints five decimals, rounded to the nearest. On the inputs evaluated in this theory every number is one that
  a double holds exactly, and so is every intermediate result, or it is a text that is
  only copied: a C run computes the same.
\<close>

definition scan_decimal :: "string \<Rightarrow> ('a::floor_ceiling) option" where
  "scan_decimal s =
     (let s1 = dropWhile isspace s;
          s2 = (if take 1 s1 = ''-'' \<or> take 1 s1 = ''+'' then drop 1 s1 else s1);
          ip = takeWhile isdigit s2;
          s3 = dropWhile isdigit s2;
          fr = (if take 1 s3 = ''.'' then takeWhile isdigit (drop 1 s3) else []);
          v = of_nat (decimal ip) + of_nat (decimal fr) / 10 ^ length fr
      in if ip = [] \<and> fr = [] then None
         else Some (if take 1 s1 = ''-'' then - v else v))"

definition rne :: "('a::floor_ceiling) \<Rightarrow> int" where
  \<comment> \<open>the nearest integer, the even one of two that are equally near\<close>
  "rne y =
     (let f = \<lfloor>y\<rfloor>; d = y - of_int f
      in if d < 1 / 2 then f
         else if 1 / 2 < d then f + 1
         else if even f then f else f + 1)"

definition print_5f :: "('a::floor_ceiling) \<Rightarrow> string" where
  "print_5f x =
     (let n = nat (rne (\<bar>x\<bar> * 100000))
      in (if x < 0 then ''-'' else []) @ show_nat (n div 100000) @ ''.''
         @ tl (show_nat (100000 + n mod 100000)))"

definition exact :: "('a::floor_ceiling) arith" where
  "exact = \<lparr>fp_lit = of_rat, fp_less = (<), fp_add = (+), fp_sub = (-), fp_mul = (*),
            fp_div = (/), fp_floor = (\<lambda>x. of_int \<lfloor>x\<rfloor>), fp_scan = scan_decimal,
            fp_print5 = print_5f\<rparr>"

section \<open>Double precision\<close>

text \<open>
  The doubles of the C program, as the rational numbers they are. \<open>to_double x\<close> is
  the double nearest to \<open>x\<close>, the one with the even significand of two that are equally
  near: \<open>scale2\<close> brings \<open>\<bar>x\<bar>\<close> into the interval from 1 to 2 by halving or
  doubling, and the 53 bits of the significand are \<open>rne\<close> of the result times
  \<open>2\<^sup>5\<^sup>2\<close>. Every operation of \<open>binary64\<close> is the exact one followed by
  \<open>to_double\<close>, as IEEE 754 has it. The exponent is not bounded: overflow to
  infinity, the denormalised numbers below \<open>2\<^sup>-\<^sup>1\<^sup>0\<^sup>2\<^sup>2\<close>, division by zero, NaN and
  the sign of zero are left out, and the 1100 steps of \<open>scale2\<close> cover every magnitude
  a double has.
\<close>

fun scale2 :: "nat \<Rightarrow> rat \<Rightarrow> rat \<Rightarrow> rat \<times> rat" where
  "scale2 0 m s = (m, s)"
| "scale2 (Suc n) m s =
     (if 2 \<le> m then scale2 n (m / 2) (s * 2)
      else if m < 1 then scale2 n (m * 2) (s / 2)
      else (m, s))"

definition to_double :: "rat \<Rightarrow> rat" where
  "to_double x =
     (if x = 0 then 0
      else (case scale2 1100 \<bar>x\<bar> 1 of
              (m, s) \<Rightarrow> sgn x * (of_int (rne (m * 2 ^ 52)) * s / 2 ^ 52)))"

definition binary64 :: "rat arith" where
  "binary64 =
     \<lparr>fp_lit = to_double,
      fp_less = (<),
      fp_add = (\<lambda>a b. to_double (a + b)),
      fp_sub = (\<lambda>a b. to_double (a - b)),
      fp_mul = (\<lambda>a b. to_double (a * b)),
      fp_div = (\<lambda>a b. to_double (a / b)),
      fp_floor = (\<lambda>x. of_int \<lfloor>x\<rfloor>),
      fp_scan = (\<lambda>s. map_option to_double (scan_decimal s)),
      fp_print5 = print_5f\<rparr>"

section \<open>Notions of the specification\<close>

text \<open>
  The specification speaks of the value \<open>V\<close> of an extrusion parameter, of
  \<open>round5\<close>, of a baseline that is set, of the toolhead a line claims and of the
  temperature of a line. Each is defined here from the code it names.
\<close>

definition value_of :: "'r arith \<Rightarrow> string \<Rightarrow> 'r" where
  \<comment> \<open>\<open>V\<close>: what \<open>CurrentE = 0.0; sscanf(Token+1,"%lf",&CurrentE)\<close> leaves in \<open>CurrentE\<close>\<close>
  "value_of ar Token = (case fp_scan ar (tl Token) of None \<Rightarrow> fp_lit ar 0 | Some v \<Rightarrow> v)"



definition baseline_set :: "'r arith \<Rightarrow> 'r globals \<Rightarrow> bool" where
  \<comment> \<open>the test \<open>FirstE > 0\<close>, "Did we see an 'E' before?"\<close>
  "baseline_set ar g = fp_less ar (fp_lit ar 0) (FirstE g)"



definition S_values :: "string list \<Rightarrow> 32 word list" where
  \<comment> \<open>the integers of the tokens that begin with \<open>S\<close> and hold an integer after it, in order\<close>
  "S_values args =
     concat (map (\<lambda>Token. case Token of
                             [] \<Rightarrow> []
                           | c # cs \<Rightarrow>
                               if c = CHR ''S''
                               then (case scan_d cs of None \<Rightarrow> [] | Some v \<Rightarrow> [v])
                               else []) args)"

definition last_temp :: "string list \<Rightarrow> 32 word" where
  "last_temp args = (if S_values args = [] then 0 else last (S_values args))"

definition first_temp :: "string list \<Rightarrow> 32 word" where
  \<comment> \<open>the integer of the first token that begins with \<open>S\<close>, 0 when there is none\<close>
  "first_temp args =
     (case filter (\<lambda>Token. Token0 Token = CHR ''S'') args of
        [] \<Rightarrow> 0
      | Token # _ \<Rightarrow> sscanf_Sd Token 0)"

section \<open>Tokens and codes\<close>

lemma strtok_Nil: "strtok [] = []"
  by (simp add: strtok.simps)

lemma strtok_delim: "delim c \<Longrightarrow> strtok (c # s) = strtok s"
  by (simp add: strtok.simps [of "c # s"] strtok.simps [of s])

lemma strtok_word_delim:
  assumes "w \<noteq> []" and "\<forall>c\<in>set w. \<not> delim c" and "delim d"
  shows "strtok (w @ d # s) = w # strtok s"
proof -
  obtain c cs where w: "w = c # cs"
    using assms(1) by (cases w) auto
  have c: "\<not> delim c" and cs: "\<And>x. x \<in> set cs \<Longrightarrow> \<not> delim x"
    using assms(2) w by auto
  have t: "takeWhile (\<lambda>x. \<not> delim x) (cs @ d # s) = cs"
    using cs assms(3) by (simp add: takeWhile_append2)
  have d: "dropWhile (\<lambda>x. \<not> delim x) (cs @ d # s) = d # s"
    using cs assms(3) by (simp add: dropWhile_append2)
  have "strtok (w @ d # s) = w # strtok (d # s)"
    unfolding w using c t d by (subst strtok.simps) simp
  then show ?thesis
    using assms(3) by (simp add: strtok_delim)
qed

lemma strtok_word:
  assumes "w \<noteq> []" and "\<forall>c\<in>set w. \<not> delim c"
  shows "strtok w = [w]"
proof -
  obtain c cs where w: "w = c # cs"
    using assms(1) by (cases w) auto
  have c: "\<not> delim c" and cs: "\<forall>x\<in>set cs. \<not> delim x"
    using assms(2) w by auto
  have tw: "takeWhile (\<lambda>x. \<not> delim x) cs = cs"
    and dw: "dropWhile (\<lambda>x. \<not> delim x) cs = []"
    using cs by auto
  show ?thesis
    unfolding w by (subst strtok.simps) (simp add: c tw dw strtok_Nil)
qed

lemma delim_iff: "delim c \<longleftrightarrow> c = CHR 0x20 \<or> c = CHR 0x0A"
  by (auto simp: delim_def Tokens_def nl_def)

lemma CheckCode_loop_eq:
  "CheckCode_loop t 0 =
     (if t = ''M101'' then 0 else if t = ''M102'' then 1 else if t = ''M103'' then 2
      else if t = ''M104'' then 3 else if t = ''M108'' then 4 else if t = ''M6'' then 5
      else if t = ''G1'' then 6 else - 1)"
proof -
  have step: "\<And>n. CheckCode_loop t n =
      (if n < 7 then (if t = CODES ! n then int n else CheckCode_loop t (Suc n)) else - 1)"
    by (subst CheckCode_loop.simps) (simp add: NUMCODES_def NOTOKENS_def)
  have "CheckCode_loop t (Suc (Suc (Suc (Suc (Suc (Suc (Suc 0))))))) = - 1"
    by (subst step) simp
  then have "CheckCode_loop t (Suc (Suc (Suc (Suc (Suc (Suc 0)))))) = (if t = ''G1'' then 6 else - 1)"
    by (subst step) (simp add: CODES_def)
  then have "CheckCode_loop t (Suc (Suc (Suc (Suc (Suc 0))))) =
      (if t = ''M6'' then 5 else if t = ''G1'' then 6 else - 1)"
    by (subst step) (simp add: CODES_def)
  then have "CheckCode_loop t (Suc (Suc (Suc (Suc 0)))) =
      (if t = ''M108'' then 4 else if t = ''M6'' then 5 else if t = ''G1'' then 6 else - 1)"
    by (subst step) (simp add: CODES_def)
  then have "CheckCode_loop t (Suc (Suc (Suc 0))) =
      (if t = ''M104'' then 3 else if t = ''M108'' then 4 else if t = ''M6'' then 5
       else if t = ''G1'' then 6 else - 1)"
    by (subst step) (simp add: CODES_def)
  then have "CheckCode_loop t (Suc (Suc 0)) =
      (if t = ''M103'' then 2 else if t = ''M104'' then 3 else if t = ''M108'' then 4
       else if t = ''M6'' then 5 else if t = ''G1'' then 6 else - 1)"
    by (subst step) (simp add: CODES_def)
  then have "CheckCode_loop t (Suc 0) =
      (if t = ''M102'' then 1 else if t = ''M103'' then 2 else if t = ''M104'' then 3
       else if t = ''M108'' then 4 else if t = ''M6'' then 5 else if t = ''G1'' then 6 else - 1)"
    by (subst step) (simp add: CODES_def)
  then show ?thesis
    by (subst step) (simp add: CODES_def)
qed

lemma CheckCode_unknown: "t \<notin> set CODES \<Longrightarrow> CheckCode (Some t) = - 1"
  by (simp add: CheckCode_def CheckCode_loop_eq CODES_def)

lemma CheckCode_known: "t \<in> set CODES \<Longrightarrow> 0 \<le> CheckCode (Some t)"
  by (auto simp: CheckCode_def CheckCode_loop_eq CODES_def)


lemma conv_line_unclassified:
  assumes "case strtok (cstr buf) of [] \<Rightarrow> True | t # _ \<Rightarrow> t \<notin> set CODES"
  shows "conv_line ar g cnt buf = Inr (cstr buf, g)"
proof -
  have "CheckCode (case strtok (cstr buf) of [] \<Rightarrow> None | t # _ \<Rightarrow> Some t) = - 1"
  proof (cases "strtok (cstr buf)")
    case Nil
    then show ?thesis by (simp add: CheckCode_def)
  next
    case (Cons t ts)
    with assms show ?thesis by (simp add: CheckCode_unknown)
  qed
  then show ?thesis
    by (simp add: conv_line_def M101_def M102_def M103_def M104_def M108_def M6_def G1_def)
qed

lemma CheckCode_eq:
  "CheckCode (Some t) =
     (if t = ''M101'' then M101 else if t = ''M102'' then M102 else if t = ''M103'' then M103
      else if t = ''M104'' then M104 else if t = ''M108'' then M108 else if t = ''M6'' then M6
      else if t = ''G1'' then G1 else NOTOKENS)"
  by (simp add: CheckCode_def CheckCode_loop_eq M101_def M102_def M103_def M104_def M108_def
      M6_def G1_def NOTOKENS_def)

lemmas code_defs = M101_def M102_def M103_def M104_def M108_def M6_def G1_def NOTOKENS_def

lemma conv_line_onoff:
  assumes "strtok (cstr buf) = v # args"
    and "v = ''M101'' \<or> v = ''M102'' \<or> v = ''M103'' \<or> v = ''M6''"
  shows "conv_line ar g cnt buf =
     (case args of
        [] \<Rightarrow> Inr (v @ '' T1'' @ nl @ v @ '' T0'' @ nl, g)
      | Token # _ \<Rightarrow>
          if NotUsed g = Token then Inr (cstr buf, g)
          else Inr (v @ '' T1'' @ nl @ v @ '' T0'' @ nl, g))"
  using assms
  by (auto simp: conv_line_def CheckCode_eq code_defs onoff_lines_def CODES_def
      split: list.splits)

lemma conv_line_M104:
  assumes "strtok (cstr buf) = ''M104'' # args"
  shows "conv_line ar g cnt buf =
     Inr (''M104 S'' @ show_int (sint (m104_args (NotUsed g) args 0)) @ '' T1'' @ nl
          @ ''M104 S'' @ show_int (sint (m104_args (NotUsed g) args 0)) @ '' T0'' @ nl, g)"
  using assms
  by (simp add: conv_line_def CheckCode_eq code_defs temp_lines_def CODES_def)


lemma conv_line_G1:
  assumes "strtok (cstr buf) = ''G1'' # args"
  shows "conv_line ar g cnt buf =
     (case g1_args ar cnt args ''G1'' g of
        Inl e \<Rightarrow> Inl e
      | Inr (b, g') \<Rightarrow>
          (case sprintf_cat b nl of
             None \<Rightarrow> Inl (BufferOverrun cnt)
           | Some b' \<Rightarrow> Inr (b', g')))"
  using assms
  by (simp add: conv_line_def CheckCode_eq code_defs CODES_def)

lemma check_line_on:
  assumes "strtok (cstr buf) = v # args" and "v = ''M101'' \<or> v = ''M102''"
  shows "check_line g buf =
     (case args of
        [] \<Rightarrow> Inr g
      | Token # _ \<Rightarrow>
          if Token = ''T0'' then
            (if LeftUsed g then Inl ConflictError else Inr (g\<lparr>RightUsed := True\<rparr>))
          else if Token = ''T1'' then
            (if RightUsed g then Inl ConflictError else Inr (g\<lparr>LeftUsed := True\<rparr>))
          else Inr g)"
  using assms
  by (auto simp: check_line_def CheckCode_eq code_defs split: list.splits)

lemma check_line_M104:
  assumes "strtok (cstr buf) = ''M104'' # args"
  shows "check_line g buf =
     (case m104_flags args (False, False, 0) of
        (UsedLeft, UsedRight, Temp) \<Rightarrow>
          if UsedRight \<and> 0 <s Temp then
            (if LeftUsed g then Inl ConflictError else Inr (g\<lparr>RightUsed := True\<rparr>))
          else if UsedLeft \<and> 0 <s Temp then
            (if RightUsed g then Inl ConflictError else Inr (g\<lparr>LeftUsed := True\<rparr>))
          else Inr g)"
  using assms
  by (simp add: check_line_def CheckCode_eq code_defs)

lemma check_line_other:
  assumes "case strtok (cstr buf) of [] \<Rightarrow> True
           | t # _ \<Rightarrow> t \<noteq> ''M101'' \<and> t \<noteq> ''M102'' \<and> t \<noteq> ''M104''"
  shows "check_line g buf = Inr g"
proof (cases "strtok (cstr buf)")
  case Nil
  then show ?thesis
    by (simp add: check_line_def CheckCode_def code_defs)
next
  case (Cons t ts)
  with assms show ?thesis
    by (simp add: check_line_def CheckCode_eq code_defs)
qed

section \<open>Lines outside the vocabulary, and what a token is\<close>



text \<open>
  C10. The tokenizer of both passes splits at the space and the linefeed only: these two
  bytes are skipped, every other byte (a tab, a carriage return) belongs to a token. So
  the record \<open>M101\<close> CR LF has the first token \<open>M101\<close> CR, which is no code: the
  detector ignores the record and the transformer copies it.
\<close>

theorem tokens_split_at_space_and_linefeed:
  "(delim c \<longleftrightarrow> c = CHR 0x20 \<or> c = CHR 0x0A)
   \<and> strtok [] = []
   \<and> (d = CHR 0x20 \<or> d = CHR 0x0A \<longrightarrow> strtok (d # s) = strtok s)
   \<and> (w \<noteq> [] \<and> (\<forall>x\<in>set w. x \<noteq> CHR 0x20 \<and> x \<noteq> CHR 0x0A) \<longrightarrow>
        strtok w = [w]
        \<and> (d = CHR 0x20 \<or> d = CHR 0x0A \<longrightarrow> strtok (w @ d # s) = w # strtok s))
   \<and> strtok (''M101'' @ [CHR 0x0D, CHR 0x0A]) = [''M101'' @ [CHR 0x0D]]
   \<and> strtok (''G1'' @ [CHR 0x09] @ ''X1 Y2'') = [''G1'' @ [CHR 0x09] @ ''X1'', ''Y2'']
   \<and> CheckCode (Some (''M101'' @ [CHR 0x0D])) = NOTOKENS
   \<and> check_line g (''M101'' @ [CHR 0x0D, CHR 0x0A]) = Inr g
   \<and> conv_line ar g' cnt (''M101'' @ [CHR 0x0D, CHR 0x0A])
       = Inr (''M101'' @ [CHR 0x0D, CHR 0x0A], g')"
proof -
  have t: "strtok (''M101'' @ [CHR 0x0D, CHR 0x0A]) = [''M101'' @ [CHR 0x0D]]"
    by (simp add: strtok.simps delim_iff)
  have t2: "strtok (''G1'' @ [CHR 0x09] @ ''X1 Y2'') = [''G1'' @ [CHR 0x09] @ ''X1'', ''Y2'']"
    by (simp add: strtok.simps delim_iff)
  have c: "cstr (''M101'' @ [CHR 0x0D, CHR 0x0A]) = ''M101'' @ [CHR 0x0D, CHR 0x0A]"
    by (simp add: cstr_def)
  have k: "CheckCode (Some (''M101'' @ [CHR 0x0D])) = NOTOKENS"
    by (simp add: CheckCode_eq)
  have ch: "check_line g (''M101'' @ [CHR 0x0D, CHR 0x0A]) = Inr g"
    by (rule check_line_other) (simp add: cstr_def strtok.simps delim_iff)
  have cv: "conv_line ar g' cnt (''M101'' @ [CHR 0x0D, CHR 0x0A])
       = Inr (cstr (''M101'' @ [CHR 0x0D, CHR 0x0A]), g')"
    by (rule conv_line_unclassified) (simp add: cstr_def strtok.simps delim_iff CODES_def)
  have w: "w \<noteq> [] \<and> (\<forall>x\<in>set w. x \<noteq> CHR 0x20 \<and> x \<noteq> CHR 0x0A) \<longrightarrow>
        strtok w = [w]
        \<and> (d = CHR 0x20 \<or> d = CHR 0x0A \<longrightarrow> strtok (w @ d # s) = w # strtok s)"
    using strtok_word [of w] strtok_word_delim [of w d s] by (simp add: delim_iff)
  have d: "d = CHR 0x20 \<or> d = CHR 0x0A \<longrightarrow> strtok (d # s) = strtok s"
    using strtok_delim [of d s] by (simp add: delim_iff)
  show ?thesis
    using t t2 k ch cv w d unfolding c by (simp add: delim_iff strtok_Nil)
qed

theorem tokens_split_at_space_and_linefeed_witness:
  "(CHR 0x0A = CHR 0x20 \<or> CHR 0x0A = CHR 0x0A)
   \<and> ''M101'' @ [CHR 0x0D] \<noteq> []
   \<and> list_all (\<lambda>x. x \<noteq> CHR 0x20 \<and> x \<noteq> CHR 0x0A) (''M101'' @ [CHR 0x0D])
   \<and> strtok (''M101'' @ [CHR 0x0D]) = [''M101'' @ [CHR 0x0D]]
   \<and> strtok ((''M101'' @ [CHR 0x0D]) @ CHR 0x0A # ''G1 X1'')
       = (''M101'' @ [CHR 0x0D]) # strtok ''G1 X1''
   \<and> strtok (CHR 0x0A # ''G1 X1'') = strtok ''G1 X1''
   \<and> \<not> delim (CHR 0x0D)"
  using tokens_split_at_space_and_linefeed
    [of "CHR 0x0D" "CHR 0x0A" "''G1 X1''" "''M101'' @ [CHR 0x0D]"
        "globals0 (exact :: rat arith)" "exact :: rat arith" "globals0 exact" 1]
  by simp

section \<open>Running the program\<close>

lemmas ev = cstr_def nl_def strtok.simps delim_iff CheckCode_eq code_defs NotUsed_def Token0_def
lemmas ev_int = sscanf_Sd_def scan_d_def isspace_def isdigit_def decimal_def digit_val_def
  show_int_def show_nat.simps word_sless_alt

section \<open>Lines for the inactive toolhead\<close>

text \<open>
  C1. The specification has an on/off or tool change line dropped when its second token
  is the designator of the inactive toolhead, and the comment in \<open>ConvFile\<close> says
  "drop it". The \<open>break\<close> there only leaves the \<open>switch\<close>: \<open>buf\<close> still holds the
  line as read and \<open>fprintf\<close> writes it. With \<open>T0\<close> active, the line \<open>M103 T1\<close> is
  copied to the output.
\<close>

theorem inactive_onoff_line_is_copied:
  "main (exact :: rat arith) None (Some ''M101 T0\<newline>M103 T1\<newline>'') True
     = (0, None, Some ''M101 T1\<newline>M101 T0\<newline>M103 T1\<newline>'')"
proof -
  let ?g0 = "\<lparr>LeftUsed = False, RightUsed = False, FirstE = 0 :: rat, Ratio = 1\<rparr>"
  let ?gR = "\<lparr>LeftUsed = False, RightUsed = True, FirstE = 0 :: rat, Ratio = 1\<rparr>"
  have f1: "fgets_all 1024 ''M101 T0\<newline>M103 T1\<newline>'' = [''M101 T0\<newline>'', ''M103 T1\<newline>'']"
    by (simp add: fgets_all.simps)
  have f2: "fgets_all 1000 ''M101 T0\<newline>M103 T1\<newline>'' = [''M101 T0\<newline>'', ''M103 T1\<newline>'']"
    by (simp add: fgets_all.simps)
  have c1: "check_line ?g0 ''M101 T0\<newline>'' = Inr ?gR"
    by (simp add: check_line_def ev)
  have c2: "check_line ?gR ''M103 T1\<newline>'' = Inr ?gR"
    by (simp add: check_line_def ev)
  have v1: "conv_line exact ?gR n ''M101 T0\<newline>'' = Inr (''M101 T1\<newline>M101 T0\<newline>'', ?gR)" for n
    by (simp add: conv_line_def ev onoff_lines_def CODES_def)
  have v2: "conv_line exact ?gR n ''M103 T1\<newline>'' = Inr (''M103 T1\<newline>'', ?gR)" for n
    by (simp add: conv_line_def ev)
  have k: "CheckFile ?g0 (Some ''M101 T0\<newline>M103 T1\<newline>'') = Inr ?gR"
    by (simp add: CheckFile_def f1 c1 c2)
  have v: "ConvFile exact ?gR (Some ''M101 T0\<newline>M103 T1\<newline>'') True
      = (None, Some ''M101 T1\<newline>M101 T0\<newline>M103 T1\<newline>'', ?gR)"
    by (simp add: ConvFile_def f2 v1 v2)
  have r: "main_ratio (exact :: rat arith) None = Inr 1"
    by (simp add: main_ratio_def exact_def)
  have g: "(globals0 (exact :: rat arith))\<lparr>Ratio := 1\<rparr> = ?g0"
    by (simp add: globals0_def exact_def)
  show ?thesis
    by (simp add: main_def r g k v)
qed

text \<open>
  C2. The specification has an \<open>M104\<close> or \<open>M108\<close> line dropped when one of its tokens
  is the designator of the inactive toolhead, and the comments say "drop it". The
  \<open>break\<close> there only leaves the \<open>while\<close> over the tokens: the two lines for \<open>T1\<close>
  and \<open>T0\<close> are written all the same, from the tokens read so far.
\<close>

theorem inactive_parameter_line_is_not_dropped:
  "main (exact :: rat arith) None
     (Some ''M104 S200 T0\<newline>M104 S0 T1\<newline>M108 R5 T1\<newline>'') True
     = (0, None, Some (''M104 S200 T1\<newline>M104 S200 T0\<newline>''
                       @ ''M104 S0 T1\<newline>M104 S0 T0\<newline>''
                       @ ''M108 R5 T1\<newline>M108 R5 T0\<newline>''))"
proof -
  let ?g0 = "\<lparr>LeftUsed = False, RightUsed = False, FirstE = 0 :: rat, Ratio = 1\<rparr>"
  let ?gR = "\<lparr>LeftUsed = False, RightUsed = True, FirstE = 0 :: rat, Ratio = 1\<rparr>"
  let ?file = "''M104 S200 T0\<newline>M104 S0 T1\<newline>M108 R5 T1\<newline>''"
  let ?recs = "[''M104 S200 T0\<newline>'', ''M104 S0 T1\<newline>'', ''M108 R5 T1\<newline>'']"
  have f1: "fgets_all 1024 ?file = ?recs"
    by (simp add: fgets_all.simps)
  have f2: "fgets_all 1000 ?file = ?recs"
    by (simp add: fgets_all.simps)
  have c1: "check_line ?g0 ''M104 S200 T0\<newline>'' = Inr ?gR"
    by (simp add: check_line_def ev ev_int)
  have c2: "check_line ?gR ''M104 S0 T1\<newline>'' = Inr ?gR"
    by (simp add: check_line_def ev ev_int)
  have c3: "check_line ?gR ''M108 R5 T1\<newline>'' = Inr ?gR"
    by (simp add: check_line_def ev)
  have v1: "conv_line exact ?gR n ''M104 S200 T0\<newline>''
      = Inr (''M104 S200 T1\<newline>M104 S200 T0\<newline>'', ?gR)" for n
    by (simp add: conv_line_def ev ev_int temp_lines_def CODES_def)
  have v2: "conv_line exact ?gR n ''M104 S0 T1\<newline>''
      = Inr (''M104 S0 T1\<newline>M104 S0 T0\<newline>'', ?gR)" for n
    by (simp add: conv_line_def ev ev_int temp_lines_def CODES_def)
  have v3: "conv_line exact ?gR n ''M108 R5 T1\<newline>''
      = Inr (''M108 R5 T1\<newline>M108 R5 T0\<newline>'', ?gR)" for n
    by (simp add: conv_line_def ev speed_lines_def CODES_def)
  have k: "CheckFile ?g0 (Some ?file) = Inr ?gR"
    by (simp add: CheckFile_def f1 c1 c2 c3)
  have v: "ConvFile exact ?gR (Some ?file) True
      = (None, Some (''M104 S200 T1\<newline>M104 S200 T0\<newline>''
                       @ ''M104 S0 T1\<newline>M104 S0 T0\<newline>''
                       @ ''M108 R5 T1\<newline>M108 R5 T0\<newline>''), ?gR)"
    by (simp add: ConvFile_def f2 v1 v2 v3)
  have r: "main_ratio (exact :: rat arith) None = Inr 1"
    by (simp add: main_ratio_def exact_def)
  have g: "(globals0 (exact :: rat arith))\<lparr>Ratio := 1\<rparr> = ?g0"
    by (simp add: globals0_def exact_def)
  show ?thesis
    using k v by (simp add: main_def r g)
qed

section \<open>The temperature of an \<open>M104\<close> line\<close>

lemma S_values_Nil: "S_values [] = []"
  by (simp add: S_values_def)

lemma S_values_Cons:
  "S_values (Token # rest)
      = (case Token of [] \<Rightarrow> []
         | c # cs \<Rightarrow> if c = CHR ''S'' then (case scan_d cs of None \<Rightarrow> [] | Some v \<Rightarrow> [v]) else [])
        @ S_values rest"
  by (simp add: S_values_def)

lemma m104_args_last:
  "nu \<notin> set args \<Longrightarrow>
     m104_args nu args Temp = (if S_values args = [] then Temp else last (S_values args))"
proof (induction args arbitrary: Temp)
  case Nil
  show ?case by (simp add: S_values_Nil)
next
  case (Cons Token rest)
  have nu: "nu \<noteq> Token" and rest: "nu \<notin> set rest"
    using Cons.prems by auto
  show ?case
    using nu Cons.IH [OF rest]
    by (cases Token) (auto simp: S_values_Cons Token0_def sscanf_Sd_def split: option.splits)
qed

text \<open>
  C6, as the code has it. An \<open>M104\<close> line without the inactive designator is written
  as two lines, for \<open>T1\<close> and then for \<open>T0\<close>, with the integer of the last token that
  begins with \<open>S\<close> and holds an integer after it (0 when there is none).
\<close>

theorem temperature_of_last_S_token:
  assumes "strtok (cstr buf) = ''M104'' # args" and "NotUsed g \<notin> set args"
  shows "conv_line ar g cnt buf =
     Inr (''M104 S'' @ show_int (sint (last_temp args)) @ '' T1\<newline>''
          @ ''M104 S'' @ show_int (sint (last_temp args)) @ '' T0\<newline>'', g)"
proof -
  have "m104_args (NotUsed g) args 0 = last_temp args"
    using m104_args_last [OF assms(2), of 0] by (simp add: last_temp_def)
  then show ?thesis
    using conv_line_M104 [OF assms(1), of ar g cnt] by (simp add: nl_def)
qed

theorem temperature_of_last_S_token_witness:
  "strtok (cstr ''M104 S100 S200 T0\<newline>'') = ''M104'' # [''S100'', ''S200'', ''T0'']
   \<and> NotUsed \<lparr>LeftUsed = False, RightUsed = True, FirstE = 0 :: rat, Ratio = 1\<rparr>
       \<notin> set [''S100'', ''S200'', ''T0'']
   \<and> conv_line exact \<lparr>LeftUsed = False, RightUsed = True, FirstE = 0 :: rat, Ratio = 1\<rparr> 1
        ''M104 S100 S200 T0\<newline>''
      = Inr (''M104 S200 T1\<newline>M104 S200 T0\<newline>'',
             \<lparr>LeftUsed = False, RightUsed = True, FirstE = 0, Ratio = 1\<rparr>)"
proof -
  let ?gR = "\<lparr>LeftUsed = False, RightUsed = True, FirstE = 0 :: rat, Ratio = 1\<rparr>"
  have h1: "strtok (cstr ''M104 S100 S200 T0\<newline>'') = ''M104'' # [''S100'', ''S200'', ''T0'']"
    by (simp add: ev)
  have h2: "NotUsed ?gR \<notin> set [''S100'', ''S200'', ''T0'']"
    by (simp add: NotUsed_def)
  have t: "last_temp [''S100'', ''S200'', ''T0''] = 200"
    by (simp add: last_temp_def S_values_def ev_int)
  show ?thesis
    using h1 h2 temperature_of_last_S_token [OF h1 h2, of exact 1]
    by (simp add: t ev_int)
qed

text \<open>
  C6, as the specification has it, takes the temperature from the first token that
  begins with \<open>S\<close>. The code reads every such token into \<open>Temp\<close>, so the last one
  stays: the file with the single line \<open>M104 S100 S200 T0\<close> is written with 200.
\<close>

theorem temperature_of_first_S_token_counterexample:
  "main (exact :: rat arith) None (Some ''M104 S100 S200 T0\<newline>'') True
     = (0, None, Some ''M104 S200 T1\<newline>M104 S200 T0\<newline>'')
   \<and> sint (first_temp [''S100'', ''S200'', ''T0'']) = 100"
proof -
  let ?g0 = "\<lparr>LeftUsed = False, RightUsed = False, FirstE = 0 :: rat, Ratio = 1\<rparr>"
  let ?gR = "\<lparr>LeftUsed = False, RightUsed = True, FirstE = 0 :: rat, Ratio = 1\<rparr>"
  let ?file = "''M104 S100 S200 T0\<newline>''"
  have f1: "fgets_all 1024 ?file = [?file]"
    by (simp add: fgets_all.simps)
  have f2: "fgets_all 1000 ?file = [?file]"
    by (simp add: fgets_all.simps)
  have c1: "check_line ?g0 ?file = Inr ?gR"
    by (simp add: check_line_def ev ev_int)
  have v1: "conv_line exact ?gR n ?file
      = Inr (''M104 S200 T1\<newline>M104 S200 T0\<newline>'', ?gR)" for n
    by (simp add: conv_line_def ev ev_int temp_lines_def CODES_def)
  have k: "CheckFile ?g0 (Some ?file) = Inr ?gR"
    by (simp add: CheckFile_def f1 c1)
  have v: "ConvFile exact ?gR (Some ?file) True
      = (None, Some ''M104 S200 T1\<newline>M104 S200 T0\<newline>'', ?gR)"
    by (simp add: ConvFile_def f2 v1)
  have r: "main_ratio (exact :: rat arith) None = Inr 1"
    by (simp add: main_ratio_def exact_def)
  have g: "(globals0 (exact :: rat arith))\<lparr>Ratio := 1\<rparr> = ?g0"
    by (simp add: globals0_def exact_def)
  have m: "main (exact :: rat arith) None (Some ?file) True
     = (0, None, Some ''M104 S200 T1\<newline>M104 S200 T0\<newline>'')"
    using k v by (simp add: main_def r g)
  have ft: "sint (first_temp [''S100'', ''S200'', ''T0'']) = 100"
    by (simp add: first_temp_def Token0_def ev_int)
  show ?thesis
    using m ft by simp
qed

section \<open>Extrusion parameters and the baseline\<close>

lemmas ev_scan = scan_decimal_def isspace_def isdigit_def decimal_def digit_val_def


lemma e_param_unset:
  "\<not> baseline_set ar g \<Longrightarrow>
     e_param ar g Token =
       ('' A'' @ tl Token @ '' B'' @ tl Token, g\<lparr>FirstE := value_of ar Token\<rparr>)"
  by (simp add: e_param_def baseline_set_def value_of_def Let_def)



lemma floor_numeral_div:
  "\<lfloor>numeral a / numeral b :: 'a::floor_ceiling\<rfloor> = numeral a div numeral b"
  using floor_divide_of_int_eq [of "numeral a" "numeral b", where ?'a = 'a] by simp






lemma exact_Em1:
  "value_of (exact :: rat arith) ''E-1'' = - 1"
  "value_of (exact :: rat arith) ''E-2'' = - 2"
  "\<not> baseline_set exact \<lparr>LeftUsed = l, RightUsed = r, FirstE = 0 :: rat, Ratio = 1\<rparr>"
  "\<not> baseline_set exact \<lparr>LeftUsed = l, RightUsed = r, FirstE = - 1 :: rat, Ratio = 1\<rparr>"
  by (simp_all add: value_of_def baseline_set_def exact_def ev_scan)

text \<open>
  C4. The specification has the baseline set once, by the first line with an extrusion
  parameter, and read only from then on; the comments of the code say the same:
  \<open>FirstE\<close> is the "First 'E' position from source file", the test \<open>FirstE > 0\<close> asks
  "Did we see an 'E' before?" and its other branch is to "save the first 'E'". The test
  takes a value that is not positive for no value: such a first value is stored and
  overwritten by the next parameter. With \<open>T0\<close> in use and no diameters, the file
  \<open>M101 T0\<close>, \<open>G1 X1 E-1\<close>, \<open>G1 X2 E-2\<close> leaves \<open>FirstE = -1\<close> after its second
  line and \<open>FirstE = -2\<close> after its third, which is written unscaled, as \<open>A-2 B-2\<close>.
\<close>

theorem baseline_overwritten_by_later_token:
  "CheckFile (globals0 (exact :: rat arith)) (Some ''M101 T0\<newline>G1 X1 E-1\<newline>G1 X2 E-2\<newline>'')
     = Inr \<lparr>LeftUsed = False, RightUsed = True, FirstE = 0, Ratio = 1\<rparr>
   \<and> ConvFile exact \<lparr>LeftUsed = False, RightUsed = True, FirstE = 0 :: rat, Ratio = 1\<rparr>
        (Some ''M101 T0\<newline>G1 X1 E-1\<newline>'') True
     = (None, Some ''M101 T1\<newline>M101 T0\<newline>G1 X1 A-1 B-1\<newline>'',
        \<lparr>LeftUsed = False, RightUsed = True, FirstE = - 1, Ratio = 1\<rparr>)
   \<and> ConvFile exact \<lparr>LeftUsed = False, RightUsed = True, FirstE = 0 :: rat, Ratio = 1\<rparr>
        (Some ''M101 T0\<newline>G1 X1 E-1\<newline>G1 X2 E-2\<newline>'') True
     = (None, Some ''M101 T1\<newline>M101 T0\<newline>G1 X1 A-1 B-1\<newline>G1 X2 A-2 B-2\<newline>'',
        \<lparr>LeftUsed = False, RightUsed = True, FirstE = - 2, Ratio = 1\<rparr>)"
proof -
  let ?g0 = "\<lparr>LeftUsed = False, RightUsed = False, FirstE = 0 :: rat, Ratio = 1\<rparr>"
  let ?gR = "\<lparr>LeftUsed = False, RightUsed = True, FirstE = 0 :: rat, Ratio = 1\<rparr>"
  let ?g1 = "\<lparr>LeftUsed = False, RightUsed = True, FirstE = - 1 :: rat, Ratio = 1\<rparr>"
  let ?g2 = "\<lparr>LeftUsed = False, RightUsed = True, FirstE = - 2 :: rat, Ratio = 1\<rparr>"
  let ?file = "''M101 T0\<newline>G1 X1 E-1\<newline>G1 X2 E-2\<newline>''"
  have f1: "fgets_all 1024 ?file = [''M101 T0\<newline>'', ''G1 X1 E-1\<newline>'', ''G1 X2 E-2\<newline>'']"
    by (simp add: fgets_all.simps)
  have f2: "fgets_all 1000 ?file = [''M101 T0\<newline>'', ''G1 X1 E-1\<newline>'', ''G1 X2 E-2\<newline>'']"
    by (simp add: fgets_all.simps)
  have f3: "fgets_all 1000 ''M101 T0\<newline>G1 X1 E-1\<newline>'' = [''M101 T0\<newline>'', ''G1 X1 E-1\<newline>'']"
    by (simp add: fgets_all.simps)
  have c1: "check_line ?g0 ''M101 T0\<newline>'' = Inr ?gR"
    by (simp add: check_line_def ev)
  have c2: "check_line ?gR ''G1 X1 E-1\<newline>'' = Inr ?gR"
    by (simp add: check_line_def ev)
  have c3: "check_line ?gR ''G1 X2 E-2\<newline>'' = Inr ?gR"
    by (simp add: check_line_def ev)
  have v1: "conv_line exact ?gR n ''M101 T0\<newline>'' = Inr (''M101 T1\<newline>M101 T0\<newline>'', ?gR)" for n
    by (simp add: conv_line_def ev onoff_lines_def CODES_def)
  have t1: "g1_token exact n ?gR ''E-1'' = Inr ('' A-1 B-1'', ?g1)" for n
    by (simp add: g1_token_def is_E_def Token0_def e_param_unset exact_Em1)
  have t2: "g1_token exact n ?g1 ''E-2'' = Inr ('' A-2 B-2'', ?g2)" for n
    by (simp add: g1_token_def is_E_def Token0_def e_param_unset exact_Em1)
  have x: "g1_token exact n g ''X1'' = Inr ('' X1'', g)" "g1_token exact n g ''X2'' = Inr ('' X2'', g)"
    for n and g :: "rat globals"
    by (simp_all add: g1_token_def is_E_def Token0_def)
  have v2: "conv_line exact ?gR n ''G1 X1 E-1\<newline>'' = Inr (''G1 X1 A-1 B-1\<newline>'', ?g1)" for n
    by (simp add: conv_line_G1 [of _ "[''X1'', ''E-1'']"] ev t1 x sprintf_cat_def)
  have v3: "conv_line exact ?g1 n ''G1 X2 E-2\<newline>'' = Inr (''G1 X2 A-2 B-2\<newline>'', ?g2)" for n
    by (simp add: conv_line_G1 [of _ "[''X2'', ''E-2'']"] ev t2 x sprintf_cat_def)
  have k: "CheckFile (globals0 (exact :: rat arith)) (Some ?file) = Inr ?gR"
    by (simp add: CheckFile_def f1 globals0_def exact_def c1 c2 c3)
  have a: "ConvFile exact ?gR (Some ''M101 T0\<newline>G1 X1 E-1\<newline>'') True
     = (None, Some ''M101 T1\<newline>M101 T0\<newline>G1 X1 A-1 B-1\<newline>'', ?g1)"
    by (simp add: ConvFile_def f3 v1 v2)
  have b: "ConvFile exact ?gR (Some ?file) True
     = (None, Some ''M101 T1\<newline>M101 T0\<newline>G1 X1 A-1 B-1\<newline>G1 X2 A-2 B-2\<newline>'', ?g2)"
    by (simp add: ConvFile_def f2 v1 v2 v3)
  show ?thesis
    using k a b by simp
qed

section \<open>The detector\<close>








section \<open>Format errors\<close>











section \<open>The diameter ratio\<close>

lemma scale2_numeral:
  "scale2 (numeral k) m s =
     (if 2 \<le> m then scale2 (pred_numeral k) (m / 2) (s * 2)
      else if m < 1 then scale2 (pred_numeral k) (m * 2) (s / 2)
      else (m, s))"
  by (simp add: numeral_eq_Suc)

lemmas ev_double = to_double_def scale2_numeral rne_def floor_numeral_div

lemma scale2_product:
  "0 < m \<Longrightarrow> 0 < s \<Longrightarrow> scale2 n m s = (m', s') \<Longrightarrow> m' * s' = m * s \<and> 0 < s'"
proof (induction n arbitrary: m s)
  case 0
  then show ?case by simp
next
  case (Suc n)
  show ?case
  proof (cases "2 \<le> m")
    case True
    then have "scale2 n (m / 2) (s * 2) = (m', s')"
      using Suc.prems(3) by simp
    moreover have "0 < m / 2" "0 < s * 2"
      using Suc.prems(1,2) by simp_all
    ultimately have "m' * s' = m / 2 * (s * 2) \<and> 0 < s'"
      using Suc.IH by blast
    then show ?thesis by simp
  next
    case False
    show ?thesis
    proof (cases "m < 1")
      case True
      then have "scale2 n (m * 2) (s / 2) = (m', s')"
        using Suc.prems(3) False by simp
      moreover have "0 < m * 2" "0 < s / 2"
        using Suc.prems(1,2) by simp_all
      ultimately have "m' * s' = m * 2 * (s / 2) \<and> 0 < s'"
        using Suc.IH by blast
      then show ?thesis by simp
    next
      case False
      with \<open>\<not> 2 \<le> m\<close> Suc.prems show ?thesis by simp
    qed
  qed
qed

lemma scale2_ge_1:
  "1 \<le> m * 2 ^ k \<Longrightarrow> k \<le> n \<Longrightarrow> scale2 n m s = (m', s') \<Longrightarrow> 1 \<le> m'"
proof (induction n arbitrary: m s k)
  case 0
  then show ?case by simp
next
  case (Suc n)
  show ?case
  proof (cases "2 \<le> m")
    case True
    then have r: "scale2 n (m / 2) (s * 2) = (m', s')"
      using Suc.prems(3) by simp
    have "1 \<le> m / 2 * 2 ^ 0"
      using True by simp
    then show ?thesis
      using Suc.IH [OF _ _ r, of 0] by simp
  next
    case False
    show ?thesis
    proof (cases "m < 1")
      case True
      then have r: "scale2 n (m * 2) (s / 2) = (m', s')"
        using Suc.prems(3) False by simp
      obtain j where k: "k = Suc j"
        using Suc.prems(1) True by (cases k) auto
      have "1 \<le> m * 2 * 2 ^ j" and "j \<le> n"
        using Suc.prems(1,2) k by (simp_all add: mult.assoc)
      then show ?thesis
        using Suc.IH [OF _ _ r] by blast
    next
      case False
      with \<open>\<not> 2 \<le> m\<close> Suc.prems(3) show ?thesis by simp
    qed
  qed
qed

lemma rne_near: "y - 1 / 2 \<le> of_int (rne y) \<and> of_int (rne y) \<le> y + 1 / (2 :: rat)"
proof -
  have f: "of_int \<lfloor>y\<rfloor> \<le> y" "y < of_int \<lfloor>y\<rfloor> + 1"
    by linarith+
  consider "y - of_int \<lfloor>y\<rfloor> < 1 / 2" | "1 / 2 < y - of_int \<lfloor>y\<rfloor>"
    | "y - of_int \<lfloor>y\<rfloor> = 1 / 2"
    by linarith
  then show ?thesis
  proof cases
    case 1
    then have r: "rne y = \<lfloor>y\<rfloor>" by (simp add: rne_def)
    show ?thesis unfolding r using f 1 by linarith
  next
    case 2
    then have r: "of_int (rne y) = of_int \<lfloor>y\<rfloor> + (1 :: rat)" by (simp add: rne_def)
    show ?thesis unfolding r using f 2 by linarith
  next
    case 3
    then have "of_int (rne y) = (of_int \<lfloor>y\<rfloor> :: rat)
        \<or> of_int (rne y) = of_int \<lfloor>y\<rfloor> + (1 :: rat)"
      by (simp add: rne_def Let_def)
    then show ?thesis
    proof
      assume r: "of_int (rne y) = (of_int \<lfloor>y\<rfloor> :: rat)"
      show ?thesis unfolding r using f 3 by linarith
    next
      assume r: "of_int (rne y) = of_int \<lfloor>y\<rfloor> + (1 :: rat)"
      show ?thesis unfolding r using f 3 by linarith
    qed
  qed
qed

lemma to_double_near:
  assumes "0 < x" and "1 \<le> x * 2 ^ k" and "k \<le> 1100"
  shows "x / 2 \<le> to_double x \<and> to_double x \<le> 2 * x"
proof -
  obtain m s where sc: "scale2 1100 \<bar>x\<bar> 1 = (m, s)"
    by (cases "scale2 1100 \<bar>x\<bar> 1")
  have ax: "\<bar>x\<bar> = x"
    using assms(1) by simp
  have ms: "m * s = x" and s: "0 < s"
    using scale2_product [of "\<bar>x\<bar>" 1 1100 m s] sc assms(1) by (simp_all add: ax)
  have m: "1 \<le> m"
    using scale2_ge_1 [of "\<bar>x\<bar>" k 1100 1 m s] sc assms(2,3) by (simp add: ax)
  define y where "y = m * 2 ^ 52"
  define u where "u = s / 2 ^ 52"
  have u: "0 < u"
    using s by (simp add: u_def)
  have y: "1 \<le> y"
  proof -
    have "(1 :: rat) \<le> 1 * 2 ^ 52" by simp
    also have "\<dots> \<le> m * 2 ^ 52"
      using m by (intro mult_right_mono) simp_all
    finally show ?thesis by (simp add: y_def)
  qed
  have x: "x = y * u"
    using ms by (simp add: y_def u_def)
  have t: "to_double x = of_int (rne y) * u"
    using assms(1) sc by (simp add: to_double_def ax y_def u_def)
  have lo: "y / 2 \<le> of_int (rne y)" and hi: "of_int (rne y) \<le> 2 * y"
    using rne_near [of y] y by linarith+
  have "y / 2 * u \<le> of_int (rne y) * u" and "of_int (rne y) * u \<le> 2 * y * u"
    using lo hi u by (simp_all add: mult_right_mono)
  then show ?thesis
    unfolding t by (simp add: x)
qed

lemma binary64_lit:
  "fp_lit binary64 (3 / 2) = 3 / 2"
  "fp_lit binary64 (11 / 5) = 2476979795053773 / 1125899906842624"
  "fp_lit binary64 2 = 2"
  "fp_lit binary64 1 = 1"
  by (simp_all add: binary64_def ev_double)

lemma diameter_ok_binary64:
  "diameter_ok binary64 d \<longleftrightarrow> 3 / 2 \<le> d \<and> d \<le> 2476979795053773 / 1125899906842624"
  by (simp add: diameter_ok_def binary64_lit) (auto simp: binary64_def)

lemma half_square_bounds:
  assumes "3 / 2 \<le> d" and "d \<le> 3"
  shows "9 / 128 \<le> to_double (to_double (d / 2) * to_double (d / 2))
         \<and> to_double (to_double (d / 2) * to_double (d / 2)) \<le> 18"
proof -
  define h where "h = to_double (d / 2)"
  have "d / 2 / 2 \<le> h \<and> h \<le> 2 * (d / 2)"
    unfolding h_def using assms by (intro to_double_near [where k = 1]) simp_all
  then have h: "3 / 8 \<le> h" "h \<le> 3"
    using assms by simp_all
  have lo: "3 / 8 * (3 / 8) \<le> h * h"
    using h by (intro mult_mono) simp_all
  have hi: "h * h \<le> 3 * 3"
    using h by (intro mult_mono) simp_all
  have "h * h / 2 \<le> to_double (h * h) \<and> to_double (h * h) \<le> 2 * (h * h)"
    using lo by (intro to_double_near [where k = 3]) simp_all
  then show ?thesis
    using lo hi by (simp add: h_def [symmetric])
qed

text \<open>
  C9, as the code has it. \<open>main\<close> computes \<open>((D1 / 2) * (D1 / 2)) / ((D2 / 2) * (D2 / 2))\<close>
  when both diameters pass the range check, and takes 1.0 without any check when no
  diameters are given. In double precision every step is rounded: for diameters from
  1.5 to the double of 2.2 the ratio is the rounded quotient of the two rounded squares,
  and it is greater than 0.
\<close>

theorem diameter_ratio_in_doubles:
  "(diameter_ok ar D1 \<and> diameter_ok ar D2 \<longrightarrow>
      main_ratio ar (Some (D1, D2))
        = Inr (fp_div ar
                 (fp_mul ar (fp_div ar D1 (fp_lit ar 2)) (fp_div ar D1 (fp_lit ar 2)))
                 (fp_mul ar (fp_div ar D2 (fp_lit ar 2)) (fp_div ar D2 (fp_lit ar 2)))))
   \<and> main_ratio ar None = Inr (fp_lit ar 1)
   \<and> main_ratio binary64 None = Inr 1
   \<and> (3 / 2 \<le> d1 \<and> d1 \<le> 2476979795053773 / 1125899906842624
        \<and> 3 / 2 \<le> d2 \<and> d2 \<le> 2476979795053773 / 1125899906842624 \<longrightarrow>
        main_ratio binary64 (Some (d1, d2))
          = Inr (to_double (to_double (to_double (d1 / 2) * to_double (d1 / 2))
                            / to_double (to_double (d2 / 2) * to_double (d2 / 2))))
        \<and> 0 < to_double (to_double (to_double (d1 / 2) * to_double (d1 / 2))
                          / to_double (to_double (d2 / 2) * to_double (d2 / 2))))"
proof -
  have e: "main_ratio binary64 (Some (d1, d2))
          = Inr (to_double (to_double (to_double (d1 / 2) * to_double (d1 / 2))
                            / to_double (to_double (d2 / 2) * to_double (d2 / 2))))
        \<and> 0 < to_double (to_double (to_double (d1 / 2) * to_double (d1 / 2))
                          / to_double (to_double (d2 / 2) * to_double (d2 / 2)))"
    if d: "3 / 2 \<le> d1" "d1 \<le> 2476979795053773 / 1125899906842624"
      "3 / 2 \<le> d2" "d2 \<le> 2476979795053773 / 1125899906842624"
  proof -
    define s1 where "s1 = to_double (to_double (d1 / 2) * to_double (d1 / 2))"
    define s2 where "s2 = to_double (to_double (d2 / 2) * to_double (d2 / 2))"
    have ok: "diameter_ok binary64 d1" "diameter_ok binary64 d2"
      using d by (simp_all add: diameter_ok_binary64)
    have m: "main_ratio binary64 (Some (d1, d2)) = Inr (to_double (s1 / s2))"
      using ok by (simp add: main_ratio_def binary64_lit) (simp add: binary64_def s1_def s2_def)
    have "d1 \<le> 3" "d2 \<le> 3"
      using d by simp_all
    then have b1: "9 / 128 \<le> s1" and b2: "9 / 128 \<le> s2" "s2 \<le> 18"
      using half_square_bounds [of d1] half_square_bounds [of d2] d
      by (simp_all add: s1_def s2_def)
    have q: "9 / 128 / 18 \<le> s1 / s2"
      using b1 b2 by (intro frac_le) simp_all
    have pos: "0 < s1 / s2"
      using b1 b2 by (intro divide_pos_pos) simp_all
    have big: "1 \<le> s1 / s2 * 2 ^ 8"
      using q by simp
    have "s1 / s2 / 2 \<le> to_double (s1 / s2) \<and> to_double (s1 / s2) \<le> 2 * (s1 / s2)"
      using pos big by (rule to_double_near) simp
    then have "0 < to_double (s1 / s2)"
      using pos by simp
    then show ?thesis
      using m by (simp add: s1_def s2_def)
  qed
  have n: "main_ratio binary64 None = Inr 1"
    by (simp add: main_ratio_def binary64_lit)
  show ?thesis
    using e n by (simp add: main_ratio_def)
qed

lemma ratio_175_22:
  "to_double (to_double (to_double (7 / 4 / 2) * to_double (7 / 4 / 2))
     / to_double (to_double (2476979795053773 / 1125899906842624 / 2)
                  * to_double (2476979795053773 / 1125899906842624 / 2)))
   = 2849643359260773 / 4503599627370496"
proof -
  have a: "to_double (7 / 4 / 2) = 7 / 8"
    by (simp add: ev_double)
  have b: "to_double (7 / 8 * (7 / 8)) = 49 / 64"
    by (simp add: ev_double)
  have c: "to_double (2476979795053773 / 1125899906842624 / 2)
      = 2476979795053773 / 2251799813685248"
    by (simp add: ev_double)
  have d: "to_double (2476979795053773 / 2251799813685248 * (2476979795053773 / 2251799813685248))
      = 5449355549118301 / 4503599627370496"
    by (simp add: ev_double)
  have e: "to_double (49 / 64 / (5449355549118301 / 4503599627370496))
      = 2849643359260773 / 4503599627370496"
    by (simp add: ev_double)
  show ?thesis
    unfolding a b c d e by (rule refl)
qed

theorem diameter_ratio_in_doubles_witness:
  "diameter_ok binary64 (7 / 4)
   \<and> diameter_ok binary64 (2476979795053773 / 1125899906842624)
   \<and> (3 / 2 :: rat) \<le> 7 / 4 \<and> (7 / 4 :: rat) \<le> 2476979795053773 / 1125899906842624
   \<and> (3 / 2 :: rat) \<le> 2476979795053773 / 1125899906842624
   \<and> main_ratio binary64 (Some (7 / 4, 2476979795053773 / 1125899906842624))
       = Inr (2849643359260773 / 4503599627370496)
   \<and> (0 :: rat) < 2849643359260773 / 4503599627370496"
proof -
  note T = diameter_ratio_in_doubles [where ar = binary64 and ?D1.0 = "7 / 4"
      and ?D2.0 = "2476979795053773 / 1125899906842624" and ?d1.0 = "7 / 4"
      and ?d2.0 = "2476979795053773 / 1125899906842624"]
  have ok: "diameter_ok binary64 (7 / 4)
      \<and> diameter_ok binary64 (2476979795053773 / 1125899906842624)"
    by (simp add: diameter_ok_binary64)
  have r: "(3 / 2 :: rat) \<le> 7 / 4 \<and> (7 / 4 :: rat) \<le> 2476979795053773 / 1125899906842624
      \<and> (3 / 2 :: rat) \<le> 2476979795053773 / 1125899906842624
      \<and> (2476979795053773 / 1125899906842624 :: rat) \<le> 2476979795053773 / 1125899906842624"
    by simp
  have g: "main_ratio binary64 (Some (7 / 4, 2476979795053773 / 1125899906842624))
      = Inr (fp_div binary64
               (fp_mul binary64 (fp_div binary64 (7 / 4) (fp_lit binary64 2))
                  (fp_div binary64 (7 / 4) (fp_lit binary64 2)))
               (fp_mul binary64
                  (fp_div binary64 (2476979795053773 / 1125899906842624) (fp_lit binary64 2))
                  (fp_div binary64 (2476979795053773 / 1125899906842624) (fp_lit binary64 2))))"
    using T [THEN conjunct1] ok by blast
  have "main_ratio binary64 (Some (7 / 4, 2476979795053773 / 1125899906842624))
          = Inr (to_double (to_double (to_double (7 / 4 / 2) * to_double (7 / 4 / 2))
                   / to_double (to_double (2476979795053773 / 1125899906842624 / 2)
                                * to_double (2476979795053773 / 1125899906842624 / 2))))
        \<and> 0 < to_double (to_double (to_double (7 / 4 / 2) * to_double (7 / 4 / 2))
                   / to_double (to_double (2476979795053773 / 1125899906842624 / 2)
                                * to_double (2476979795053773 / 1125899906842624 / 2)))"
    using T [THEN conjunct2, THEN conjunct2, THEN conjunct2] r by blast
  then have m: "main_ratio binary64 (Some (7 / 4, 2476979795053773 / 1125899906842624))
       = Inr (2849643359260773 / 4503599627370496)
      \<and> (0 :: rat) < 2849643359260773 / 4503599627370496"
    unfolding ratio_175_22 .
  show ?thesis
    using ok r m g by blast
qed

text \<open>
  C9, as the specification has it, makes the computed ratio equal to \<open>(D1 / D2)\<^sup>2\<close>
  exactly. For the arguments \<open>1.75\<close> and \<open>2.2\<close> the program computes the double
  \<open>2849643359260773 / 2\<^sup>5\<^sup>2\<close> (0.6327479338842974), which is neither the square of
  \<open>D1 / D2\<close> nor what \<open>(D1 / D2) * (D1 / D2)\<close> gives in double precision,
  \<open>5699286718521547 / 2\<^sup>5\<^sup>3\<close> (0.6327479338842975).
\<close>

theorem ratio_not_exact_counterexample:
  "fp_scan binary64 ''1.75'' = Some (7 / 4)
   \<and> fp_scan binary64 ''2.2'' = Some (2476979795053773 / 1125899906842624)
   \<and> main_ratio binary64 (Some (7 / 4, 2476979795053773 / 1125899906842624))
       = Inr (2849643359260773 / 4503599627370496)
   \<and> fp_mul binary64 (fp_div binary64 (7 / 4) (2476979795053773 / 1125899906842624))
        (fp_div binary64 (7 / 4) (2476979795053773 / 1125899906842624))
       = 5699286718521547 / 9007199254740992
   \<and> (2849643359260773 / 4503599627370496 :: rat) \<noteq> 5699286718521547 / 9007199254740992
   \<and> (2849643359260773 / 4503599627370496 :: rat)
       \<noteq> (7 / 4 / (2476979795053773 / 1125899906842624))\<^sup>2"
proof -
  have s1: "fp_scan binary64 ''1.75'' = Some (7 / 4)"
    by (simp add: binary64_def scan_decimal_def isspace_def isdigit_def decimal_def
        digit_val_def ev_double)
  have s2: "fp_scan binary64 ''2.2'' = Some (2476979795053773 / 1125899906842624)"
    by (simp add: binary64_def scan_decimal_def isspace_def isdigit_def decimal_def
        digit_val_def ev_double)
  have ok: "diameter_ok binary64 (7 / 4)"
    "diameter_ok binary64 (2476979795053773 / 1125899906842624)"
    by (simp_all add: diameter_ok_binary64)
  have "main_ratio binary64 (Some (7 / 4, 2476979795053773 / 1125899906842624))
      = Inr (to_double (to_double (to_double (7 / 4 / 2) * to_double (7 / 4 / 2))
               / to_double (to_double (2476979795053773 / 1125899906842624 / 2)
                            * to_double (2476979795053773 / 1125899906842624 / 2))))"
    using ok by (simp add: main_ratio_def binary64_lit) (simp add: binary64_def)
  then have m: "main_ratio binary64 (Some (7 / 4, 2476979795053773 / 1125899906842624))
       = Inr (2849643359260773 / 4503599627370496)"
    unfolding ratio_175_22 .
  have q: "to_double (7 / 4 / (2476979795053773 / 1125899906842624))
      = 1791204397249629 / 2251799813685248"
    by (simp add: ev_double)
  have p: "to_double (1791204397249629 / 2251799813685248 * (1791204397249629 / 2251799813685248))
      = 5699286718521547 / 9007199254740992"
    by (simp add: ev_double)
  have d: "fp_mul binary64 (fp_div binary64 (7 / 4) (2476979795053773 / 1125899906842624))
        (fp_div binary64 (7 / 4) (2476979795053773 / 1125899906842624))
       = 5699286718521547 / 9007199254740992"
    unfolding binary64_def by (simp only: arith.simps q p)
  have n1: "(2849643359260773 / 4503599627370496 :: rat) \<noteq> 5699286718521547 / 9007199254740992"
    by simp
  have n2: "(2849643359260773 / 4503599627370496 :: rat)
       \<noteq> (7 / 4 / (2476979795053773 / 1125899906842624))\<^sup>2"
    by (simp add: power2_eq_square)
  show ?thesis
    using s1 s2 m d n1 n2 by blast
qed

end
